theory Spec2Isabelle
  imports Main "HOL-Library.Char_ord" "HOL-Library.Sublist" "HOL-Library.Word"
begin

section \<open>The diagonal Sudoku solver of solution.py\<close>

text \<open>
  A box is named by a two-character string (row letter, column digit), and a board
  is the dictionary from the 81 box names to candidate strings. Every board of the
  program is built by \<open>grid_values\<close> over \<open>zip(boxes, grid)\<close>; assignment to an
  existing key and \<open>dict.copy\<close> keep the keys and their insertion order. A board is
  therefore a total function on box names, and \<open>values.values()\<close> is the list of its
  values along \<open>boxes\<close>.
\<close>

type_synonym box = string
type_synonym board = "box \<Rightarrow> string"

subsection \<open>Global tables\<close>

definition cross :: "string \<Rightarrow> string \<Rightarrow> box list" where
  "cross A B = concat (map (\<lambda>a. map (\<lambda>b. [a, b]) B) A)"

definition rows :: string where
  "rows = ''ABCDEFGHI''"

definition cols :: string where
  "cols = ''123456789''"

definition boxes :: "box list" where
  "boxes = cross rows cols"

definition row_units :: "box list list" where
  "row_units = map (\<lambda>row. cross [row] cols) rows"

definition col_units :: "box list list" where
  "col_units = map (\<lambda>col. cross rows [col]) cols"

definition square_units :: "box list list" where
  "square_units =
     concat (map (\<lambda>xs. map (\<lambda>ys. cross xs ys) [''123'', ''456'', ''789''])
                 [''ABC'', ''DEF'', ''GHI''])"

text \<open>\<open>str(n)\<close> for a one-digit number \<open>n\<close>.\<close>

definition str_digit :: "nat \<Rightarrow> string" where
  "str_digit n = [''0123456789'' ! n]"

definition diag_tuples :: "(box \<times> box) list" where
  "diag_tuples =
     concat (map (\<lambda>(r, row).
        concat (map (\<lambda>(c, col).
           if r = c then [([row, col], row # str_digit (nat \<bar>int c - 9\<bar>))] else [])
          (zip [0 ..< length cols] cols)))
       (zip [0 ..< length rows] rows))"

definition diag_units :: "box list list" where
  "diag_units = [map fst diag_tuples, map snd diag_tuples]"

definition units :: "box list list" where
  "units = row_units @ col_units @ square_units @ diag_units"

definition boxdict :: "box \<Rightarrow> box list list" where
  "boxdict b = filter (\<lambda>unit. b \<in> set unit) units"

definition peers :: "box \<Rightarrow> box set" where
  "peers b = set (concat (boxdict b)) - set [b]"

text \<open>
  The order in which Python walks the set \<open>peers[box]\<close> is not fixed; the model walks
  it in the order of first occurrence in the units of the box.
\<close>

definition peers_list :: "box \<Rightarrow> box list" where
  "peers_list b = remdups (filter (\<lambda>p. p \<noteq> b) (concat (boxdict b)))"

subsection \<open>Parsing\<close>

datatype error = KeyError

definition grid_values :: "string \<Rightarrow> board" where
  "grid_values grid =
     (\<lambda>b. case map_of (zip boxes grid) b of
             Some val \<Rightarrow> if val = CHR ''.'' then cols else [val]
           | None \<Rightarrow> [])"

subsection \<open>String helpers\<close>

text \<open>\<open>s.replace(old, '')\<close>: every non-overlapping occurrence of \<open>old\<close>, found from
  the left, is dropped; an empty \<open>old\<close> leaves \<open>s\<close> as it is.\<close>

function str_remove :: "string \<Rightarrow> string \<Rightarrow> string" where
  "str_remove old [] = []"
| "str_remove old (x # xs) =
     (if old = [] then x # xs
      else if take (length old) (x # xs) = old
           then str_remove old (drop (length old) (x # xs))
           else x # str_remove old xs)"
  by pat_completeness auto
termination
  by (relation "measure (\<lambda>(old, s). length s)") auto

text \<open>\<open>re.sub(a + '|' + b, '', s)\<close> for two characters that are not regular-expression
  metacharacters (the digits of a board): every \<open>a\<close> and every \<open>b\<close> is dropped.\<close>

definition re_sub_pair :: "char \<Rightarrow> char \<Rightarrow> string \<Rightarrow> string" where
  "re_sub_pair a b s = filter (\<lambda>x. x \<noteq> a \<and> x \<noteq> b) s"

subsection \<open>eliminate\<close>

fun eliminate_peers :: "string \<Rightarrow> box list \<Rightarrow> board \<Rightarrow> board" where
  "eliminate_peers digit [] values = values"
| "eliminate_peers digit (peer # ps) values =
     eliminate_peers digit ps (values(peer := str_remove digit (values peer)))"

fun eliminate_boxes :: "box list \<Rightarrow> board \<Rightarrow> board" where
  "eliminate_boxes [] values = values"
| "eliminate_boxes (b # bs) values =
     eliminate_boxes bs (eliminate_peers (values b) (peers_list b) values)"

definition eliminate :: "board \<Rightarrow> board" where
  "eliminate values =
     eliminate_boxes (filter (\<lambda>b. length (values b) = 1) boxes) values"

subsection \<open>only_choice\<close>

definition only_choice_digit :: "box list \<Rightarrow> board \<Rightarrow> char \<Rightarrow> board" where
  "only_choice_digit unit values digit =
     (let dplaces = filter (\<lambda>b. digit \<in> set (values b)) unit
      in if length dplaces = 1 then values(hd dplaces := [digit]) else values)"

definition only_choice_unit :: "board \<Rightarrow> box list \<Rightarrow> board" where
  "only_choice_unit values unit = foldl (only_choice_digit unit) values ''123456789''"

definition only_choice :: "board \<Rightarrow> board" where
  "only_choice values = foldl only_choice_unit values units"

subsection \<open>naked_twins\<close>

text \<open>The \<open>defaultdict(int)\<close> of a unit, as an association list in insertion order.\<close>

fun bump :: "string \<Rightarrow> (string \<times> nat) list \<Rightarrow> (string \<times> nat) list" where
  "bump val [] = [(val, 1)]"
| "bump val ((k, n) # d) = (if k = val then (k, n + 1) # d else (k, n) # bump val d)"

definition twin_counts :: "board \<Rightarrow> box list \<Rightarrow> (string \<times> nat) list" where
  "twin_counts values unit =
     foldl (\<lambda>d b. let val = values b in if length val = 2 then bump val d else d) [] unit"

fun twins_strike :: "char \<Rightarrow> char \<Rightarrow> box list \<Rightarrow> board \<Rightarrow> board" where
  "twins_strike a b [] values = values"
| "twins_strike a b (c # cs) values =
     twins_strike a b cs
       (if values c \<noteq> [a, b] then values(c := re_sub_pair a b (values c)) else values)"

fun twins_items :: "(string \<times> nat) list \<Rightarrow> box list \<Rightarrow> board \<Rightarrow> board" where
  "twins_items [] unit values = values"
| "twins_items ((k, count) # d) unit values =
     twins_items d unit
       (if count = 2 then twins_strike (k ! 0) (k ! 1) unit values else values)"

definition naked_twins_unit :: "board \<Rightarrow> box list \<Rightarrow> board" where
  "naked_twins_unit values unit = twins_items (twin_counts values unit) unit values"

definition naked_twins :: "board \<Rightarrow> board" where
  "naked_twins values = foldl naked_twins_unit values units"

subsection \<open>reduce_puzzle and the predicates of search\<close>

definition reduce_puzzle :: "board \<Rightarrow> board" where
  "reduce_puzzle values = naked_twins (only_choice (eliminate values))"

text \<open>Python's \<open>hash\<close> of a tuple of strings is not part of the program; it is a
  parameter, with values in the 64 bits of \<open>Py_hash_t\<close>.\<close>

type_synonym hashfn = "string list \<Rightarrow> 64 word"

definition dict_values :: "board \<Rightarrow> string list" where
  "dict_values values = map values boxes"

definition is_same :: "hashfn \<Rightarrow> board \<Rightarrow> board \<Rightarrow> bool" where
  "is_same h before after = (h (dict_values before) = h (dict_values after))"

definition is_searchable :: "board \<Rightarrow> bool" where
  "is_searchable values = (length (concat (dict_values values)) > 81)"

definition is_solved :: "board \<Rightarrow> bool" where
  "is_solved values =
     list_all (\<lambda>unit. sort (concat (map values unit)) = ''123456789'') units"

definition box_key :: "board \<Rightarrow> box \<Rightarrow> nat" where
  "box_key values b = (if length (values b) = 1 then 10 else length (values b))"

text \<open>\<open>min(xs, key=f)\<close> keeps the first of the smallest elements.\<close>

definition min_by :: "('a \<Rightarrow> nat) \<Rightarrow> 'a \<Rightarrow> 'a list \<Rightarrow> 'a" where
  "min_by f x xs = foldl (\<lambda>best y. if f y < f best then y else best) x xs"

definition find_smallest_box :: "board \<Rightarrow> box" where
  "find_smallest_box values = min_by (box_key values) (hd boxes) (tl boxes)"

subsection \<open>search and solve\<close>

text \<open>The three kinds of value \<open>search\<close> returns: a board, \<open>False\<close>, or \<open>None\<close>
  (the function body ends without a \<open>return\<close>).\<close>

datatype result = Board board | RFalse | RNone

text \<open>The truth value of a result in \<open>if result:\<close>; a board has 81 keys.\<close>

fun truthy :: "result \<Rightarrow> bool" where
  "truthy (Board b) = True"
| "truthy RFalse = False"
| "truthy RNone = False"

definition total_len :: "board \<Rightarrow> nat" where
  "total_len values = length (concat (dict_values values))"

text \<open>The \<open>for guess in guesses\<close> loop: \<open>values\<close> is updated in place and a copy goes
  to the recursive call \<open>rec\<close>, whose answer \<open>None\<close> means that it did not return.\<close>

fun try_guesses ::
  "(board \<Rightarrow> result option) \<Rightarrow> board \<Rightarrow> box \<Rightarrow> string \<Rightarrow> result option" where
  "try_guesses rec values b [] = Some RNone"
| "try_guesses rec values b (guess # guesses) =
     (let values' = values(b := [guess])
      in case rec values' of
           None \<Rightarrow> None
         | Some r \<Rightarrow> if truthy r then Some r else try_guesses rec values' b guesses)"

text \<open>The \<open>while True\<close> loop of \<open>search\<close>: one pass on a copy, then the comparison.\<close>

function reduce_loop :: "hashfn \<Rightarrow> board \<Rightarrow> board" where
  "reduce_loop h values =
     (let reduced = reduce_puzzle values
      in if is_same h values reduced then values else reduce_loop h reduced)"
  by pat_completeness auto

text \<open>\<open>search\<close>, with the depth of the recursion bounded by the first argument:
  \<open>None\<close> says that this depth was not enough for the call to return.\<close>

primrec search :: "hashfn \<Rightarrow> nat \<Rightarrow> board \<Rightarrow> result option" where
  "search h 0 values0 = None"
| "search h (Suc n) values0 =
     (let values = reduce_loop h values0
      in if is_solved values then Some (Board values)
         else if \<not> is_searchable values then Some RFalse
         else let b = find_smallest_box values;
                  guesses = values b
              in try_guesses (search h n) values b guesses)"

text \<open>\<open>solve\<close>: a grid of fewer than 81 characters gives a dictionary without some
  box, and the first pass of \<open>eliminate\<close> raises \<open>KeyError\<close> on it.\<close>

definition solve :: "hashfn \<Rightarrow> nat \<Rightarrow> string \<Rightarrow> (error + result) option" where
  "solve h n grid =
     (if length grid < 81 then Some (Inl KeyError)
      else map_option Inr (search h n (grid_values grid)))"

subsection \<open>Orderings used in the statements\<close>

text \<open>Board \<open>w\<close> is below board \<open>v\<close> when every candidate string of \<open>w\<close> is what is
  left of the string of \<open>v\<close> after dropping some of its characters.\<close>

definition shrunk :: "board \<Rightarrow> board \<Rightarrow> bool" where
  "shrunk w v = (\<forall>c. subseq (w c) (v c))"

subsection \<open>Notions used in the statements\<close>

text \<open>What a sequence of attempts returns: the first result that is true in a
  condition; \<open>None\<close> of the function when all have failed; no answer when an attempt
  that is reached gives none.\<close>

fun first_truthy :: "result option list \<Rightarrow> result option" where
  "first_truthy [] = Some RNone"
| "first_truthy (None # rs) = None"
| "first_truthy (Some r # rs) = (if truthy r then Some r else first_truthy rs)"

text \<open>The fourth sample grid of the program, a solved diagonal Sudoku.\<close>

definition g4 :: string where
  "g4 = ''267584391159362748834917526496738215312495687578621439643159872925873164781246953''"



text \<open>A board with no candidate left in box A1 and all nine digits in every other box.\<close>

definition dead_A1 :: board where
  "dead_A1 = (\<lambda>_. ''123456789'')(''A1'' := [])"

text \<open>The solved grid \<open>g4\<close> with no candidate left in box A1, and with the two wrong
  candidates 1 and 3 in box A1.\<close>

definition g4_dead :: board where
  "g4_dead = (grid_values g4)(''A1'' := [])"

definition g4_wrong :: board where
  "g4_wrong = (grid_values g4)(''A1'' := ''13'')"

section \<open>Every rule only removes candidates\<close>

lemma subseq_str_remove: "subseq (str_remove old s) s"
proof (induction old s rule: str_remove.induct)
  case (1 old)
  then show ?case by simp
next
  case (2 old x xs)
  show ?case
  proof (cases "old = []")
    case True
    then show ?thesis by simp
  next
    case ne: False
    show ?thesis
    proof (cases "take (length old) (x # xs) = old")
      case True
      have "subseq (str_remove old (drop (length old) (x # xs))) (drop (length old) (x # xs))"
        using 2(1)[OF ne True] .
      moreover have "subseq (drop (length old) (x # xs)) (x # xs)"
        by (metis append_take_drop_id list_emb_append2 subseq_order.order_refl)
      ultimately have "subseq (str_remove old (drop (length old) (x # xs))) (x # xs)"
        by (rule subseq_order.order_trans)
      then show ?thesis using ne True by simp
    next
      case F2: False
      show ?thesis using 2(2)[OF ne F2] ne F2 by auto
    qed
  qed
qed

lemma str_remove_single: "str_remove [d] s = filter (\<lambda>x. x \<noteq> d) s"
  by (induction s) auto

lemma str_remove_empty: "str_remove [] s = s"
  by (cases s) auto

lemma shrunk_refl: "shrunk v v"
  by (simp add: shrunk_def)

lemma shrunk_trans: "shrunk u w \<Longrightarrow> shrunk w v \<Longrightarrow> shrunk u v"
  unfolding shrunk_def by (meson subseq_order.order_trans)

lemma shrunk_upd: "subseq s (v c) \<Longrightarrow> shrunk (v(c := s)) v"
  by (simp add: shrunk_def)

lemma shrunk_foldl:
  assumes "\<And>w x. shrunk (f w x) w"
  shows "shrunk (foldl f v xs) v"
proof (induction xs arbitrary: v)
  case Nil
  show ?case by (simp add: shrunk_refl)
next
  case (Cons x xs)
  have "shrunk (foldl f (f v x) xs) (f v x)" by (rule Cons.IH)
  then show ?case using assms[of v x] by (auto intro: shrunk_trans)
qed

lemma shrunk_eliminate_peers: "shrunk (eliminate_peers d ps v) v"
proof (induction ps arbitrary: v)
  case Nil
  show ?case by (simp add: shrunk_refl)
next
  case (Cons p ps)
  have "shrunk (v(p := str_remove d (v p))) v"
    by (rule shrunk_upd) (rule subseq_str_remove)
  then show ?case using Cons.IH shrunk_trans by auto
qed

lemma shrunk_eliminate_boxes: "shrunk (eliminate_boxes bs v) v"
proof (induction bs arbitrary: v)
  case Nil
  show ?case by (simp add: shrunk_refl)
next
  case (Cons b bs)
  show ?case using Cons.IH shrunk_eliminate_peers shrunk_trans by fastforce
qed

lemma shrunk_eliminate: "shrunk (eliminate v) v"
  by (simp add: eliminate_def shrunk_eliminate_boxes)

lemma subseq_single: "d \<in> set s \<Longrightarrow> subseq [d] s"
  by (induction s) auto

lemma length_one_hd: "length xs = 1 \<Longrightarrow> xs = [hd xs]"
  by (cases xs) auto

lemma shrunk_only_choice_digit: "shrunk (only_choice_digit u v d) v"
proof (cases "length (filter (\<lambda>b. d \<in> set (v b)) u) = 1")
  case True
  then have "hd (filter (\<lambda>b. d \<in> set (v b)) u) \<in> set (filter (\<lambda>b. d \<in> set (v b)) u)"
    by (metis length_one_hd list.set_intros(1))
  then have "d \<in> set (v (hd (filter (\<lambda>b. d \<in> set (v b)) u)))" by simp
  then have "subseq [d] (v (hd (filter (\<lambda>b. d \<in> set (v b)) u)))" by (rule subseq_single)
  then show ?thesis using True by (simp add: only_choice_digit_def shrunk_upd)
next
  case False
  then show ?thesis by (simp add: only_choice_digit_def shrunk_refl)
qed

lemma shrunk_only_choice_unit: "shrunk (only_choice_unit v u) v"
  unfolding only_choice_unit_def by (rule shrunk_foldl) (rule shrunk_only_choice_digit)

lemma shrunk_only_choice: "shrunk (only_choice v) v"
  unfolding only_choice_def by (rule shrunk_foldl) (rule shrunk_only_choice_unit)

lemma shrunk_twins_strike: "shrunk (twins_strike a b cs v) v"
proof (induction cs arbitrary: v)
  case Nil
  show ?case by (simp add: shrunk_refl)
next
  case (Cons c cs)
  have "shrunk (if v c \<noteq> [a, b] then v(c := re_sub_pair a b (v c)) else v) v"
    by (simp add: shrunk_refl shrunk_upd re_sub_pair_def)
  then show ?case using shrunk_trans[OF Cons.IH] by simp
qed

lemma shrunk_twins_items: "shrunk (twins_items d u v) v"
proof (induction d arbitrary: v)
  case Nil
  show ?case by (simp add: shrunk_refl)
next
  case (Cons kc d)
  obtain k n where kc: "kc = (k, n)" by (cases kc)
  have "shrunk (if n = 2 then twins_strike (k ! 0) (k ! 1) u v else v) v"
    by (simp add: shrunk_refl shrunk_twins_strike)
  then show ?case unfolding kc using shrunk_trans[OF Cons.IH] by simp
qed

lemma shrunk_naked_twins_unit: "shrunk (naked_twins_unit v u) v"
  by (simp add: naked_twins_unit_def shrunk_twins_items)

lemma shrunk_naked_twins: "shrunk (naked_twins v) v"
  unfolding naked_twins_def by (rule shrunk_foldl) (rule shrunk_naked_twins_unit)

lemma shrunk_reduce_puzzle: "shrunk (reduce_puzzle v) v"
  unfolding reduce_puzzle_def
  using shrunk_naked_twins shrunk_only_choice shrunk_eliminate shrunk_trans by blast

section \<open>The propagation loop\<close>

lemma length_concat_sum: "length (concat (map f xs)) = sum_list (map (\<lambda>x. length (f x)) xs)"
  by (induction xs) auto

lemma sum_list_strict:
  fixes f g :: "'a \<Rightarrow> nat"
  assumes "\<And>x. f x \<le> g x" and "x \<in> set xs" and "f x < g x"
  shows "sum_list (map f xs) < sum_list (map g xs)"
  using assms(2)
proof (induction xs)
  case Nil
  then show ?case by simp
next
  case (Cons y ys)
  have le: "sum_list (map f ys) \<le> sum_list (map g ys)"
    by (rule sum_list_mono) (rule assms(1))
  show ?case
  proof (cases "x = y")
    case True
    then show ?thesis using le assms(3) by simp
  next
    case False
    then have "x \<in> set ys" using Cons.prems by simp
    then have "sum_list (map f ys) < sum_list (map g ys)" by (rule Cons.IH)
    then show ?thesis using assms(1)[of y] by (simp add: add_le_less_mono)
  qed
qed

lemma shrunk_cell: "shrunk w v \<Longrightarrow> subseq (w c) (v c)"
  by (simp add: shrunk_def)

lemma shrunk_length: "shrunk w v \<Longrightarrow> length (w c) \<le> length (v c)"
  by (rule list_emb_length[OF shrunk_cell])

lemma shrunk_set: "shrunk w v \<Longrightarrow> set (w c) \<subseteq> set (v c)"
proof
  fix x
  assume "shrunk w v" and "x \<in> set (w c)"
  then show "x \<in> set (v c)"
    using list_emb_set[OF shrunk_cell[of w v c], of x] by auto
qed

lemma shrunk_changed_shorter:
  assumes "shrunk w v" and "w c \<noteq> v c"
  shows "length (w c) < length (v c)"
proof -
  have s: "subseq (w c) (v c)" using assms(1) by (rule shrunk_cell)
  have "length (w c) \<le> length (v c)" using s by (rule list_emb_length)
  moreover have "length (w c) \<noteq> length (v c)"
    using subseq_same_length[OF s] assms(2) by auto
  ultimately show ?thesis by simp
qed

lemma total_len_sum: "total_len v = sum_list (map (\<lambda>c. length (v c)) boxes)"
  by (simp add: total_len_def dict_values_def length_concat_sum)

lemma shrunk_total_len_le: "shrunk w v \<Longrightarrow> total_len w \<le> total_len v"
  unfolding total_len_sum by (rule sum_list_mono) (rule shrunk_length)

lemma shrunk_total_len_less:
  assumes "shrunk w v" and "dict_values w \<noteq> dict_values v"
  shows "total_len w < total_len v"
proof -
  obtain c where c: "c \<in> set boxes" "w c \<noteq> v c"
    using assms(2) by (auto simp: dict_values_def)
  have "length (w c) < length (v c)"
    using assms(1) c(2) by (rule shrunk_changed_shorter)
  then show ?thesis
    unfolding total_len_sum
    by (intro sum_list_strict[where x = c] shrunk_length[OF assms(1)] c(1))
qed

lemma is_same_values: "dict_values a = dict_values b \<Longrightarrow> is_same h a b"
  by (simp add: is_same_def)

lemma pass_changed_shorter:
  "\<not> is_same h v (reduce_puzzle v) \<Longrightarrow> total_len (reduce_puzzle v) < total_len v"
proof -
  assume "\<not> is_same h v (reduce_puzzle v)"
  then have "dict_values (reduce_puzzle v) \<noteq> dict_values v"
    using is_same_values[of v "reduce_puzzle v" h] by auto
  then show ?thesis by (rule shrunk_total_len_less[OF shrunk_reduce_puzzle])
qed

termination reduce_loop
  by (relation "measure (\<lambda>(h, v). total_len v)") (auto simp: pass_changed_shorter)

lemma reduce_loop_unfold:
  "reduce_loop h v = (if is_same h v (reduce_puzzle v) then v else reduce_loop h (reduce_puzzle v))"
  by (subst reduce_loop.simps) (simp only: Let_def)

declare reduce_loop.simps [simp del]

section \<open>Claims on the propagation rules\<close>

text \<open>
  C3 (monotonic shrink). After one application of \<open>eliminate\<close>, of \<open>only_choice\<close> or of
  \<open>naked_twins\<close> to any board, every character of a cell's candidate string was in
  that cell's string before, and the string is no longer than before.
\<close>

theorem monotonic_shrink:
  "set (eliminate v c) \<subseteq> set (v c) \<and> length (eliminate v c) \<le> length (v c) \<and>
   set (only_choice v c) \<subseteq> set (v c) \<and> length (only_choice v c) \<le> length (v c) \<and>
   set (naked_twins v c) \<subseteq> set (v c) \<and> length (naked_twins v c) \<le> length (v c)"
proof -
  have e: "set (eliminate v c) \<subseteq> set (v c) \<and> length (eliminate v c) \<le> length (v c)"
    using shrunk_set[OF shrunk_eliminate] shrunk_length[OF shrunk_eliminate] by simp
  have oc: "set (only_choice v c) \<subseteq> set (v c) \<and> length (only_choice v c) \<le> length (v c)"
    using shrunk_set[OF shrunk_only_choice] shrunk_length[OF shrunk_only_choice] by simp
  have nt: "set (naked_twins v c) \<subseteq> set (v c) \<and> length (naked_twins v c) \<le> length (v c)"
    using shrunk_set[OF shrunk_naked_twins] shrunk_length[OF shrunk_naked_twins] by simp
  from e oc nt show ?thesis by simp
qed

lemma reduce_loop_passes:
  "\<exists>k\<le>total_len v. reduce_loop h v = (reduce_puzzle ^^ k) v"
proof (induction h v rule: reduce_loop.induct)
  case (1 h v)
  show ?case
  proof (cases "is_same h v (reduce_puzzle v)")
    case True
    then have "reduce_loop h v = (reduce_puzzle ^^ 0) v"
      using reduce_loop_unfold[of h v] by simp
    then show ?thesis by blast
  next
    case False
    then obtain k where k: "k \<le> total_len (reduce_puzzle v)"
        "reduce_loop h (reduce_puzzle v) = (reduce_puzzle ^^ k) (reduce_puzzle v)"
      using 1 by blast
    have "Suc k \<le> total_len v"
      using k(1) pass_changed_shorter[OF False] by simp
    moreover have "reduce_loop h v = (reduce_puzzle ^^ Suc k) v"
      using False k(2) reduce_loop_unfold[of h v]
      by (simp add: funpow_Suc_right del: funpow.simps)
    ultimately show ?thesis by blast
  qed
qed

lemma reduce_loop_same: "is_same h (reduce_loop h v) (reduce_puzzle (reduce_loop h v))"
proof (induction h v rule: reduce_loop.induct)
  case (1 h v)
  show ?case
  proof (cases "is_same h v (reduce_puzzle v)")
    case True
    then show ?thesis using reduce_loop_unfold[of h v] by simp
  next
    case False
    then show ?thesis using 1 reduce_loop_unfold[of h v] by simp
  qed
qed

lemma unchanged_pass_exists:
  "\<exists>k\<le>total_len v.
     dict_values (reduce_puzzle ((reduce_puzzle ^^ k) v)) = dict_values ((reduce_puzzle ^^ k) v)"
proof (induction "total_len v" arbitrary: v rule: less_induct)
  case less
  show ?case
  proof (cases "dict_values (reduce_puzzle v) = dict_values v")
    case True
    then have "dict_values (reduce_puzzle ((reduce_puzzle ^^ 0) v)) = dict_values ((reduce_puzzle ^^ 0) v)"
      by simp
    then show ?thesis by blast
  next
    case False
    then have lt: "total_len (reduce_puzzle v) < total_len v"
      using shrunk_total_len_less[OF shrunk_reduce_puzzle] by blast
    then obtain k where k: "k \<le> total_len (reduce_puzzle v)"
      "dict_values (reduce_puzzle ((reduce_puzzle ^^ k) (reduce_puzzle v)))
         = dict_values ((reduce_puzzle ^^ k) (reduce_puzzle v))"
      using less by blast
    have "Suc k \<le> total_len v" using k(1) lt by simp
    moreover have "dict_values (reduce_puzzle ((reduce_puzzle ^^ Suc k) v))
         = dict_values ((reduce_puzzle ^^ Suc k) v)"
      using k(2) by (simp add: funpow_Suc_right del: funpow.simps)
    ultimately show ?thesis by blast
  qed
qed

text \<open>
  C5 (termination of the propagation loop). For every board and every hash function
  the loop of \<open>search\<close> returns: it is a total function, it stops after at most
  as many passes of \<open>reduce_puzzle\<close> as the board has candidate characters, at a
  board that \<open>is_same\<close> does not tell from its next pass; and among the first passes
  there is one that leaves the candidate string of every box unchanged. A pass that
  \<open>is_same\<close> tells from its input makes the board strictly shorter.
\<close>

theorem propagation_loop_terminates:
  "(\<exists>k\<le>total_len v. reduce_loop h v = (reduce_puzzle ^^ k) v) \<and>
   is_same h (reduce_loop h v) (reduce_puzzle (reduce_loop h v)) \<and>
   (\<exists>k\<le>total_len v.
      dict_values (reduce_puzzle ((reduce_puzzle ^^ k) v)) = dict_values ((reduce_puzzle ^^ k) v)) \<and>
   (is_same h v (reduce_puzzle v) \<or> total_len (reduce_puzzle v) < total_len v)"
proof -
  have "is_same h v (reduce_puzzle v) \<or> total_len (reduce_puzzle v) < total_len v"
    using pass_changed_shorter[of h v] by blast
  with reduce_loop_passes[of v h] reduce_loop_same[of h v] unchanged_pass_exists[of v]
  show ?thesis by simp
qed

section \<open>The tables\<close>

lemma boxes_eq:
  "boxes =
    [''A1'', ''A2'', ''A3'', ''A4'', ''A5'', ''A6'', ''A7'', ''A8'', ''A9'',
     ''B1'', ''B2'', ''B3'', ''B4'', ''B5'', ''B6'', ''B7'', ''B8'', ''B9'',
     ''C1'', ''C2'', ''C3'', ''C4'', ''C5'', ''C6'', ''C7'', ''C8'', ''C9'',
     ''D1'', ''D2'', ''D3'', ''D4'', ''D5'', ''D6'', ''D7'', ''D8'', ''D9'',
     ''E1'', ''E2'', ''E3'', ''E4'', ''E5'', ''E6'', ''E7'', ''E8'', ''E9'',
     ''F1'', ''F2'', ''F3'', ''F4'', ''F5'', ''F6'', ''F7'', ''F8'', ''F9'',
     ''G1'', ''G2'', ''G3'', ''G4'', ''G5'', ''G6'', ''G7'', ''G8'', ''G9'',
     ''H1'', ''H2'', ''H3'', ''H4'', ''H5'', ''H6'', ''H7'', ''H8'', ''H9'',
     ''I1'', ''I2'', ''I3'', ''I4'', ''I5'', ''I6'', ''I7'', ''I8'', ''I9'']"
  by (simp add: boxes_def cross_def rows_def cols_def)

lemma row_units_eq:
  "row_units =
    [[''A1'', ''A2'', ''A3'', ''A4'', ''A5'', ''A6'', ''A7'', ''A8'', ''A9''],
     [''B1'', ''B2'', ''B3'', ''B4'', ''B5'', ''B6'', ''B7'', ''B8'', ''B9''],
     [''C1'', ''C2'', ''C3'', ''C4'', ''C5'', ''C6'', ''C7'', ''C8'', ''C9''],
     [''D1'', ''D2'', ''D3'', ''D4'', ''D5'', ''D6'', ''D7'', ''D8'', ''D9''],
     [''E1'', ''E2'', ''E3'', ''E4'', ''E5'', ''E6'', ''E7'', ''E8'', ''E9''],
     [''F1'', ''F2'', ''F3'', ''F4'', ''F5'', ''F6'', ''F7'', ''F8'', ''F9''],
     [''G1'', ''G2'', ''G3'', ''G4'', ''G5'', ''G6'', ''G7'', ''G8'', ''G9''],
     [''H1'', ''H2'', ''H3'', ''H4'', ''H5'', ''H6'', ''H7'', ''H8'', ''H9''],
     [''I1'', ''I2'', ''I3'', ''I4'', ''I5'', ''I6'', ''I7'', ''I8'', ''I9'']]"
  by (simp add: row_units_def cross_def rows_def cols_def)

lemma col_units_eq:
  "col_units =
    [[''A1'', ''B1'', ''C1'', ''D1'', ''E1'', ''F1'', ''G1'', ''H1'', ''I1''],
     [''A2'', ''B2'', ''C2'', ''D2'', ''E2'', ''F2'', ''G2'', ''H2'', ''I2''],
     [''A3'', ''B3'', ''C3'', ''D3'', ''E3'', ''F3'', ''G3'', ''H3'', ''I3''],
     [''A4'', ''B4'', ''C4'', ''D4'', ''E4'', ''F4'', ''G4'', ''H4'', ''I4''],
     [''A5'', ''B5'', ''C5'', ''D5'', ''E5'', ''F5'', ''G5'', ''H5'', ''I5''],
     [''A6'', ''B6'', ''C6'', ''D6'', ''E6'', ''F6'', ''G6'', ''H6'', ''I6''],
     [''A7'', ''B7'', ''C7'', ''D7'', ''E7'', ''F7'', ''G7'', ''H7'', ''I7''],
     [''A8'', ''B8'', ''C8'', ''D8'', ''E8'', ''F8'', ''G8'', ''H8'', ''I8''],
     [''A9'', ''B9'', ''C9'', ''D9'', ''E9'', ''F9'', ''G9'', ''H9'', ''I9'']]"
  by (simp add: col_units_def cross_def rows_def cols_def)

lemma square_units_eq:
  "square_units =
    [[''A1'', ''A2'', ''A3'', ''B1'', ''B2'', ''B3'', ''C1'', ''C2'', ''C3''],
     [''A4'', ''A5'', ''A6'', ''B4'', ''B5'', ''B6'', ''C4'', ''C5'', ''C6''],
     [''A7'', ''A8'', ''A9'', ''B7'', ''B8'', ''B9'', ''C7'', ''C8'', ''C9''],
     [''D1'', ''D2'', ''D3'', ''E1'', ''E2'', ''E3'', ''F1'', ''F2'', ''F3''],
     [''D4'', ''D5'', ''D6'', ''E4'', ''E5'', ''E6'', ''F4'', ''F5'', ''F6''],
     [''D7'', ''D8'', ''D9'', ''E7'', ''E8'', ''E9'', ''F7'', ''F8'', ''F9''],
     [''G1'', ''G2'', ''G3'', ''H1'', ''H2'', ''H3'', ''I1'', ''I2'', ''I3''],
     [''G4'', ''G5'', ''G6'', ''H4'', ''H5'', ''H6'', ''I4'', ''I5'', ''I6''],
     [''G7'', ''G8'', ''G9'', ''H7'', ''H8'', ''H9'', ''I7'', ''I8'', ''I9'']]"
  by (simp add: square_units_def cross_def)

lemma diag_units_eq:
  "diag_units =
    [[''A1'', ''B2'', ''C3'', ''D4'', ''E5'', ''F6'', ''G7'', ''H8'', ''I9''],
     [''A9'', ''B8'', ''C7'', ''D6'', ''E5'', ''F4'', ''G3'', ''H2'', ''I1'']]"
  by code_simp

lemma units_eq:
  "units =
    [[''A1'', ''A2'', ''A3'', ''A4'', ''A5'', ''A6'', ''A7'', ''A8'', ''A9''],
     [''B1'', ''B2'', ''B3'', ''B4'', ''B5'', ''B6'', ''B7'', ''B8'', ''B9''],
     [''C1'', ''C2'', ''C3'', ''C4'', ''C5'', ''C6'', ''C7'', ''C8'', ''C9''],
     [''D1'', ''D2'', ''D3'', ''D4'', ''D5'', ''D6'', ''D7'', ''D8'', ''D9''],
     [''E1'', ''E2'', ''E3'', ''E4'', ''E5'', ''E6'', ''E7'', ''E8'', ''E9''],
     [''F1'', ''F2'', ''F3'', ''F4'', ''F5'', ''F6'', ''F7'', ''F8'', ''F9''],
     [''G1'', ''G2'', ''G3'', ''G4'', ''G5'', ''G6'', ''G7'', ''G8'', ''G9''],
     [''H1'', ''H2'', ''H3'', ''H4'', ''H5'', ''H6'', ''H7'', ''H8'', ''H9''],
     [''I1'', ''I2'', ''I3'', ''I4'', ''I5'', ''I6'', ''I7'', ''I8'', ''I9''],
     [''A1'', ''B1'', ''C1'', ''D1'', ''E1'', ''F1'', ''G1'', ''H1'', ''I1''],
     [''A2'', ''B2'', ''C2'', ''D2'', ''E2'', ''F2'', ''G2'', ''H2'', ''I2''],
     [''A3'', ''B3'', ''C3'', ''D3'', ''E3'', ''F3'', ''G3'', ''H3'', ''I3''],
     [''A4'', ''B4'', ''C4'', ''D4'', ''E4'', ''F4'', ''G4'', ''H4'', ''I4''],
     [''A5'', ''B5'', ''C5'', ''D5'', ''E5'', ''F5'', ''G5'', ''H5'', ''I5''],
     [''A6'', ''B6'', ''C6'', ''D6'', ''E6'', ''F6'', ''G6'', ''H6'', ''I6''],
     [''A7'', ''B7'', ''C7'', ''D7'', ''E7'', ''F7'', ''G7'', ''H7'', ''I7''],
     [''A8'', ''B8'', ''C8'', ''D8'', ''E8'', ''F8'', ''G8'', ''H8'', ''I8''],
     [''A9'', ''B9'', ''C9'', ''D9'', ''E9'', ''F9'', ''G9'', ''H9'', ''I9''],
     [''A1'', ''A2'', ''A3'', ''B1'', ''B2'', ''B3'', ''C1'', ''C2'', ''C3''],
     [''A4'', ''A5'', ''A6'', ''B4'', ''B5'', ''B6'', ''C4'', ''C5'', ''C6''],
     [''A7'', ''A8'', ''A9'', ''B7'', ''B8'', ''B9'', ''C7'', ''C8'', ''C9''],
     [''D1'', ''D2'', ''D3'', ''E1'', ''E2'', ''E3'', ''F1'', ''F2'', ''F3''],
     [''D4'', ''D5'', ''D6'', ''E4'', ''E5'', ''E6'', ''F4'', ''F5'', ''F6''],
     [''D7'', ''D8'', ''D9'', ''E7'', ''E8'', ''E9'', ''F7'', ''F8'', ''F9''],
     [''G1'', ''G2'', ''G3'', ''H1'', ''H2'', ''H3'', ''I1'', ''I2'', ''I3''],
     [''G4'', ''G5'', ''G6'', ''H4'', ''H5'', ''H6'', ''I4'', ''I5'', ''I6''],
     [''G7'', ''G8'', ''G9'', ''H7'', ''H8'', ''H9'', ''I7'', ''I8'', ''I9''],
     [''A1'', ''B2'', ''C3'', ''D4'', ''E5'', ''F6'', ''G7'', ''H8'', ''I9''],
     [''A9'', ''B8'', ''C7'', ''D6'', ''E5'', ''F4'', ''G3'', ''H2'', ''I1'']]"
  unfolding units_def row_units_eq col_units_eq square_units_eq diag_units_eq by simp

lemma length_units: "length units = 29"
  by (simp add: units_eq)

lemma length_boxes: "length boxes = 81"
  by (simp add: boxes_eq)

lemma distinct_boxes: "distinct boxes"
  unfolding boxes_eq by simp

lemma peers_iff: "a \<in> peers b \<longleftrightarrow> a \<noteq> b \<and> (\<exists>u \<in> set units. b \<in> set u \<and> a \<in> set u)"
  by (auto simp: peers_def boxdict_def)

lemma peers_list_set: "set (peers_list b) = peers b"
  by (auto simp: peers_list_def peers_def)

lemma distinct_peers_list: "distinct (peers_list b)"
  by (simp add: peers_list_def)

lemma card_peers: "card (peers b) = length (peers_list b)"
  using distinct_card[OF distinct_peers_list[of b]] by (simp only: peers_list_set)

lemma off_diagonal_peers:
  "list_all (\<lambda>c. c \<in> set (diag_units ! 0) \<or> c \<in> set (diag_units ! 1) \<or> length (peers_list c) = 20) boxes"
  by code_simp


text \<open>
  C9 (constraint-model invariants). Box \<open>a\<close> is a peer of box \<open>b\<close> exactly when \<open>b\<close> is
  a peer of \<open>a\<close>; no box is its own peer; and a box that is on neither diagonal unit
  has exactly 20 peers.
\<close>

theorem peer_invariants:
  "(a \<in> peers b \<longleftrightarrow> b \<in> peers a) \<and> a \<notin> peers a \<and>
   (c \<in> set boxes \<and> c \<notin> set (diag_units ! 0) \<and> c \<notin> set (diag_units ! 1)
      \<longrightarrow> card (peers c) = 20)"
proof -
  have sym: "a \<in> peers b \<longleftrightarrow> b \<in> peers a"
    unfolding peers_iff by auto
  have irr: "a \<notin> peers a"
    by (simp add: peers_iff)
  have cnt: "card (peers c) = 20"
    if "c \<in> set boxes" "c \<notin> set (diag_units ! 0)" "c \<notin> set (diag_units ! 1)"
    using off_diagonal_peers that unfolding list_all_iff card_peers by blast
  from sym irr cnt show ?thesis by blast
qed

theorem peer_invariants_witness:
  "''A2'' \<in> set boxes \<and> ''A2'' \<notin> set (diag_units ! 0) \<and> ''A2'' \<notin> set (diag_units ! 1) \<and>
   card (peers ''A2'') = 20 \<and> (''A1'' \<in> peers ''A2'' \<longleftrightarrow> ''A2'' \<in> peers ''A1'') \<and>
   ''A1'' \<notin> peers ''A1''"
proof -
  have m: "''A2'' \<in> set boxes \<and> ''A2'' \<notin> set (diag_units ! 0) \<and> ''A2'' \<notin> set (diag_units ! 1)"
    by (simp add: boxes_eq diag_units_eq)
  with peer_invariants[of "''A1''" "''A2''" "''A2''"] show ?thesis by blast
qed

section \<open>The comparison by hash\<close>

lemma dict_values_eq_iff: "dict_values a = dict_values b \<longleftrightarrow> (\<forall>c\<in>set boxes. a c = b c)"
  by (simp add: dict_values_def)

lemma foldl_fixed:
  assumes "\<And>x. f v x = v"
  shows "foldl f v xs = v"
  by (induction xs) (simp_all add: assms)

text \<open>The two-digit boards: one digit in every box, \<open>1\<close> on the boxes of \<open>S\<close> and \<open>2\<close>
  elsewhere.\<close>

lemma two_digit_boards_collide:
  fixes h :: hashfn
  shows "\<exists>S T. S \<subseteq> set boxes \<and> T \<subseteq> set boxes \<and> S \<noteq> T \<and>
           h (dict_values (\<lambda>c. if c \<in> S then ''1'' else ''2''))
             = h (dict_values (\<lambda>c. if c \<in> T then ''1'' else ''2''))"
proof (rule ccontr)
  let ?g = "\<lambda>S. h (dict_values (\<lambda>c. if c \<in> S then ''1'' else ''2''))"
  assume "\<not> ?thesis"
  then have inj: "inj_on ?g (Pow (set boxes))"
    unfolding inj_on_def by blast
  have "card (Pow (set boxes)) \<le> card (UNIV :: 64 word set)"
    by (rule card_inj_on_le[OF inj]) simp_all
  moreover have "card (Pow (set boxes)) = 2 ^ 81"
    by (simp add: card_Pow distinct_card[OF distinct_boxes] length_boxes)
  moreover have "card (UNIV :: 64 word set) = 2 ^ 64"
    by (simp add: card_word)
  ultimately have "(2::nat) ^ 81 \<le> 2 ^ 64" by simp
  then show False by simp
qed

text \<open>
  Whatever the hash is, two boards that hold one digit in every box and differ in
  some box have the same hash, so \<open>is_same\<close> holds of them.
\<close>

lemma hash_collision_exists:
  "\<forall>h. \<exists>before after.
      list_all (\<lambda>c. length (before c) = 1 \<and> length (after c) = 1) boxes \<and>
      is_same h before after \<and> \<not> (\<forall>c\<in>set boxes. before c = after c)"
proof
  fix h :: hashfn
  obtain S T where st: "S \<subseteq> set boxes" "T \<subseteq> set boxes" "S \<noteq> T"
    "h (dict_values (\<lambda>c. if c \<in> S then ''1'' else ''2''))
       = h (dict_values (\<lambda>c. if c \<in> T then ''1'' else ''2''))"
    using two_digit_boards_collide[of h] by blast
  let ?b = "\<lambda>c. if c \<in> S then ''1'' else ''2''"
  let ?a = "\<lambda>c. if c \<in> T then ''1'' else ''2''"
  have one: "list_all (\<lambda>c. length (?b c) = 1 \<and> length (?a c) = 1) boxes"
    by (simp add: list_all_iff)
  have same: "is_same h ?b ?a"
    using st(4) by (simp add: is_same_def)
  obtain c where "c \<in> set boxes" "\<not> (c \<in> S \<longleftrightarrow> c \<in> T)"
    using st(1,2,3) by blast
  then have "\<not> (\<forall>c\<in>set boxes. ?b c = ?a c)" by auto
  with one same show "\<exists>before after.
      list_all (\<lambda>c. length (before c) = 1 \<and> length (after c) = 1) boxes \<and>
      is_same h before after \<and> \<not> (\<forall>c\<in>set boxes. before c = after c)"
    by (intro exI[of _ ?b] exI[of _ ?a] conjI)
qed

text \<open>
  Two boards that hold equal candidate strings in every box pass \<open>is_same\<close>; and when
  one pass of \<open>reduce_puzzle\<close> leaves the string of every box unchanged, the loop of
  \<open>search\<close> stops at once with that board.
\<close>

lemma is_same_of_equal:
  "((\<forall>c\<in>set boxes. before c = after c) \<longrightarrow> is_same h before after) \<and>
   ((\<forall>c\<in>set boxes. reduce_puzzle v c = v c) \<longrightarrow> reduce_loop h v = v)"
proof -
  have a: "is_same h before after" if "\<forall>c\<in>set boxes. before c = after c"
    using that by (intro is_same_values) (simp add: dict_values_eq_iff)
  have b: "reduce_loop h v = v" if "\<forall>c\<in>set boxes. reduce_puzzle v c = v c"
  proof -
    have "is_same h v (reduce_puzzle v)"
      using that by (intro is_same_values) (simp add: dict_values_eq_iff)
    then show ?thesis using reduce_loop_unfold[of h v] by simp
  qed
  from a b show ?thesis by blast
qed

section \<open>The choice of the box and the results of search\<close>

lemma min_by_snoc:
  "min_by f x (xs @ [z]) = (if f z < f (min_by f x xs) then z else min_by f x xs)"
  by (simp add: min_by_def)

lemma min_by_first:
  "\<exists>pre post. x # xs = pre @ min_by f x xs # post \<and>
      (\<forall>y\<in>set pre. f (min_by f x xs) < f y) \<and> (\<forall>y\<in>set post. f (min_by f x xs) \<le> f y)"
proof (induction xs rule: rev_induct)
  case Nil
  have "x # [] = [] @ min_by f x [] # []" by (simp add: min_by_def)
  then show ?case by fastforce
next
  case (snoc z xs)
  then obtain pre post where pp: "x # xs = pre @ min_by f x xs # post"
    "\<forall>y\<in>set pre. f (min_by f x xs) < f y" "\<forall>y\<in>set post. f (min_by f x xs) \<le> f y"
    by blast
  let ?m = "min_by f x xs"
  show ?case
  proof (cases "f z < f ?m")
    case True
    have all: "\<forall>y\<in>set (x # xs). f ?m \<le> f y"
      unfolding pp(1) using pp(2,3) by auto
    have "x # xs @ [z] = (x # xs) @ z # []" by simp
    moreover have "\<forall>y\<in>set (x # xs). f z < f y" using all True by auto
    ultimately show ?thesis
      unfolding min_by_snoc using True by (intro exI[of _ "x # xs"] exI[of _ "[]"]) simp
  next
    case False
    have "x # xs @ [z] = pre @ ?m # (post @ [z])" using pp(1) by simp
    moreover have "\<forall>y\<in>set (post @ [z]). f ?m \<le> f y" using pp(3) False by auto
    ultimately show ?thesis
      unfolding min_by_snoc using False pp(2)
      by (intro exI[of _ pre] exI[of _ "post @ [z]"]) simp
  qed
qed

lemma boxes_hd_tl: "hd boxes # tl boxes = boxes"
  by (simp add: boxes_eq)

lemma find_smallest_box_first:
  "\<exists>pre post. boxes = pre @ find_smallest_box w # post \<and>
      (\<forall>y\<in>set pre. box_key w (find_smallest_box w) < box_key w y) \<and>
      (\<forall>y\<in>set post. box_key w (find_smallest_box w) \<le> box_key w y)"
  using min_by_first[of "hd boxes" "tl boxes" "box_key w"]
  unfolding find_smallest_box_def boxes_hd_tl .

lemma find_smallest_box_in: "find_smallest_box w \<in> set boxes"
proof -
  obtain pre post where "boxes = pre @ find_smallest_box w # post"
    using find_smallest_box_first[of w] by blast
  then show ?thesis by (metis in_set_conv_decomp)
qed

lemma find_smallest_box_le:
  assumes "c \<in> set boxes"
  shows "box_key w (find_smallest_box w) \<le> box_key w c"
proof -
  obtain pre post where pp: "boxes = pre @ find_smallest_box w # post"
    "\<forall>y\<in>set pre. box_key w (find_smallest_box w) < box_key w y"
    "\<forall>y\<in>set post. box_key w (find_smallest_box w) \<le> box_key w y"
    using find_smallest_box_first[of w] by blast
  have "c \<in> set pre \<or> c = find_smallest_box w \<or> c \<in> set post"
    using assms unfolding pp(1) by auto
  then show ?thesis using pp(2,3) by auto
qed

lemma first_truthy_Cons:
  "first_truthy (r # rs) =
     (case r of None \<Rightarrow> None | Some y \<Rightarrow> if truthy y then Some y else first_truthy rs)"
  by (cases r) simp_all

lemma try_guesses_first_truthy:
  "try_guesses rec v b gs = first_truthy (map (\<lambda>g. rec (v(b := [g]))) gs)"
proof (induction gs arbitrary: v)
  case Nil
  show ?case by simp
next
  case (Cons g gs)
  define F where "F = (\<lambda>g. rec (v(b := [g])))"
  have ih: "try_guesses rec (v(b := [g])) b gs = first_truthy (map F gs)"
    unfolding F_def by (simp only: Cons.IH[of "v(b := [g])"] fun_upd_upd)
  have "try_guesses rec v b (g # gs) =
      (case F g of None \<Rightarrow> None | Some y \<Rightarrow> if truthy y then Some y else first_truthy (map F gs))"
    by (simp only: try_guesses.simps Let_def ih F_def)
  also have "\<dots> = first_truthy (map F (g # gs))"
    by (simp only: list.map first_truthy_Cons)
  finally show ?case unfolding F_def .
qed

lemma first_truthy_board:
  "first_truthy rs = Some (Board x) \<Longrightarrow> Some (Board x) \<in> set rs"
proof (induction rs)
  case Nil
  then show ?case by simp
next
  case (Cons r rs)
  show ?case
  proof (cases r)
    case None
    then show ?thesis using Cons.prems by simp
  next
    case (Some y)
    then show ?thesis using Cons by (cases "truthy y") auto
  qed
qed

lemma first_truthy_all_fail:
  "\<forall>r\<in>set rs. \<exists>y. r = Some y \<and> \<not> truthy y \<Longrightarrow> first_truthy rs = Some RNone"
proof (induction rs)
  case Nil
  show ?case by simp
next
  case (Cons r rs)
  then obtain y where "r = Some y" "\<not> truthy y" by auto
  then show ?case using Cons by simp
qed

lemma truthy_iff: "truthy r \<longleftrightarrow> (\<exists>b. r = Board b)"
  by (cases r) simp_all

lemma search_Suc:
  "search h (Suc n) v =
     (if is_solved (reduce_loop h v) then Some (Board (reduce_loop h v))
      else if \<not> is_searchable (reduce_loop h v) then Some RFalse
      else first_truthy (map (\<lambda>g. search h n ((reduce_loop h v)(find_smallest_box (reduce_loop h v) := [g])))
              (reduce_loop h v (find_smallest_box (reduce_loop h v)))))"
  by (simp add: Let_def try_guesses_first_truthy)

lemma search_board:
  "search h n v = Some (Board b) \<Longrightarrow> is_solved b \<and> is_same h b (reduce_puzzle b)"
proof (induction n arbitrary: v)
  case 0
  then show ?case by simp
next
  case (Suc n)
  let ?w = "reduce_loop h v"
  show ?case
  proof (cases "is_solved ?w")
    case True
    then have "b = ?w" using Suc.prems unfolding search_Suc by simp
    then show ?thesis using True reduce_loop_same[of h v] by simp
  next
    case False
    then have "first_truthy (map (\<lambda>g. search h n (?w(find_smallest_box ?w := [g])))
              (?w (find_smallest_box ?w))) = Some (Board b)"
      using Suc.prems unfolding search_Suc by (simp split: if_splits)
    then have "Some (Board b) \<in> set (map (\<lambda>g. search h n (?w(find_smallest_box ?w := [g])))
              (?w (find_smallest_box ?w)))"
      by (rule first_truthy_board)
    then obtain g where "search h n (?w(find_smallest_box ?w := [g])) = Some (Board b)"
      by auto
    then show ?thesis by (rule Suc.IH)
  qed
qed

lemma solve_board:
  "solve h n grid = Some (Inr (Board b)) \<Longrightarrow> search h n (grid_values grid) = Some (Board b)"
  by (auto simp: solve_def split: if_splits)

lemma is_solved_unit:
  "is_solved w \<Longrightarrow> u \<in> set units \<Longrightarrow> sort (concat (map w u)) = ''123456789''"
  by (simp add: is_solved_def list_all_iff)

lemma is_solved_unit_facts:
  assumes "is_solved w" and "u \<in> set units"
  shows "distinct (concat (map w u)) \<and> set (concat (map w u)) = set ''123456789'' \<and>
         length (concat (map w u)) = 9"
proof -
  have s: "sort (concat (map w u)) = ''123456789''"
    using assms by (rule is_solved_unit)
  have "distinct (sort (concat (map w u)))" unfolding s by simp
  then have d: "distinct (concat (map w u))" by simp
  have "set (sort (concat (map w u))) = set ''123456789''" unfolding s ..
  then have e: "set (concat (map w u)) = set ''123456789''" by simp
  have "length (sort (concat (map w u))) = 9" unfolding s by simp
  then have l: "length (concat (map w u)) = 9" by simp
  from d e l show ?thesis by blast
qed

text \<open>
  C1 (solution validity). A board that \<open>search\<close> or \<open>solve\<close> returns passes the test
  of \<open>is_solved\<close>: in each of the 29 units the candidate strings of the nine boxes,
  concatenated and sorted, are \<open>123456789\<close>, so the unit holds nine distinct characters,
  the digits 1 to 9.
\<close>

theorem solution_validity:
  assumes "search h n v = Some (Board b) \<or> solve h n grid = Some (Inr (Board b))"
  shows "length units = 29 \<and>
         list_all (\<lambda>u. sort (concat (map b u)) = ''123456789'') units \<and>
         list_all (\<lambda>u. distinct (concat (map b u)) \<and> set (concat (map b u)) = set ''123456789'' \<and>
                      length (concat (map b u)) = 9) units"
proof -
  have "\<exists>v. search h n v = Some (Board b)"
    using assms solve_board by blast
  then have s: "is_solved b" using search_board by blast
  then have "list_all (\<lambda>u. sort (concat (map b u)) = ''123456789'') units"
    by (simp add: is_solved_def)
  moreover have "list_all (\<lambda>u. distinct (concat (map b u)) \<and> set (concat (map b u)) = set ''123456789'' \<and>
                      length (concat (map b u)) = 9) units"
    unfolding list_all_iff using is_solved_unit_facts[OF s] by blast
  ultimately show ?thesis using length_units by blast
qed

section \<open>Solved boards\<close>

lemma units_in_boxes_all: "list_all (\<lambda>u. list_all (\<lambda>c. c \<in> set boxes) u) units"
  unfolding units_eq boxes_eq by simp

lemma units_in_boxes: "u \<in> set units \<Longrightarrow> c \<in> set u \<Longrightarrow> c \<in> set boxes"
  using units_in_boxes_all by (simp add: list_all_iff)

lemma boxes_in_row_units_all: "list_all (\<lambda>c. list_ex (\<lambda>u. c \<in> set u) row_units) boxes"
  unfolding row_units_eq boxes_eq by simp

lemma row_units_units: "u \<in> set row_units \<Longrightarrow> u \<in> set units"
  by (simp add: units_def)

lemma box_in_row_unit: "c \<in> set boxes \<Longrightarrow> \<exists>u\<in>set row_units. c \<in> set u"
  using boxes_in_row_units_all by (simp add: list_all_iff list_ex_iff)

lemma boxes_concat_rows: "boxes = concat row_units"
  by (simp add: boxes_eq row_units_eq)

lemma concat_map_concat: "concat (map f (concat xss)) = concat (map (\<lambda>xs. concat (map f xs)) xss)"
  by (induction xss) simp_all

lemma total_len_rows:
  "total_len w = sum_list (map (\<lambda>u. length (concat (map w u))) row_units)"
  unfolding total_len_def dict_values_def boxes_concat_rows concat_map_concat
  by (simp add: length_concat comp_def)

lemma length_row_units: "length row_units = 9"
  by (simp add: row_units_eq)

lemma sum_list_const: "(\<And>x. x \<in> set xs \<Longrightarrow> f x = (k::nat)) \<Longrightarrow> sum_list (map f xs) = k * length xs"
  by (induction xs) simp_all

lemma is_solved_total_len:
  assumes "is_solved w"
  shows "total_len w = 81"
proof -
  have "length (concat (map w u)) = 9" if "u \<in> set row_units" for u
    using is_solved_unit_facts[OF assms row_units_units[OF that]] by simp
  then have "sum_list (map (\<lambda>u. length (concat (map w u))) row_units) = 9 * length row_units"
    by (rule sum_list_const)
  then show ?thesis by (simp add: total_len_rows length_row_units)
qed

lemma distinct_concat_disjoint:
  assumes "distinct (concat (map f u))" and "c \<in> set u" and "p \<in> set u" and "c \<noteq> p"
  shows "set (f c) \<inter> set (f p) = {}"
  using assms
proof (induction u)
  case Nil
  then show ?case by simp
next
  case (Cons a u)
  have d: "distinct (concat (map f u))" and
    dj: "set (f a) \<inter> set (concat (map f u)) = {}"
    using Cons.prems(1) by auto
  have sub: "set (f x) \<subseteq> set (concat (map f u))" if "x \<in> set u" for x
    using that by auto
  show ?case
  proof (cases "c = a")
    case True
    then have "p \<in> set u" using Cons.prems(3,4) by auto
    then show ?thesis using sub[of p] dj True by blast
  next
    case False
    then have cu: "c \<in> set u" using Cons.prems(2) by auto
    show ?thesis
    proof (cases "p = a")
      case True
      then show ?thesis using sub[OF cu] dj by blast
    next
      case False
      then have "p \<in> set u" using Cons.prems(3) by auto
      then show ?thesis using Cons.IH[OF d cu _ Cons.prems(4)] by blast
    qed
  qed
qed

lemma foldl_fixed_set:
  assumes "\<And>x. x \<in> set xs \<Longrightarrow> f v x = v"
  shows "foldl f v xs = v"
  using assms by (induction xs) simp_all

lemma eliminate_peers_fixed:
  assumes "\<And>p. p \<in> set ps \<Longrightarrow> str_remove d (v p) = v p"
  shows "eliminate_peers d ps v = v"
  using assms
proof (induction ps)
  case Nil
  show ?case by simp
next
  case (Cons p ps)
  have "v(p := str_remove d (v p)) = v" using Cons.prems[of p] by simp
  then show ?case using Cons by simp
qed

lemma eliminate_boxes_fixed:
  assumes "\<And>c. c \<in> set bs \<Longrightarrow> eliminate_peers (v c) (peers_list c) v = v"
  shows "eliminate_boxes bs v = v"
  using assms by (induction bs) simp_all

lemma single_string: "length s = 1 \<Longrightarrow> x \<in> set s \<Longrightarrow> s = [x]"
  by (cases s) auto

lemma is_solved_eliminate:
  assumes "is_solved w"
  shows "eliminate w = w"
  unfolding eliminate_def
proof (rule eliminate_boxes_fixed)
  fix c
  assume "c \<in> set (filter (\<lambda>b. length (w b) = 1) boxes)"
  then have l: "length (w c) = 1" by simp
  then obtain x where x: "w c = [x]" by (cases "w c") auto
  show "eliminate_peers (w c) (peers_list c) w = w"
  proof (rule eliminate_peers_fixed)
    fix p
    assume "p \<in> set (peers_list c)"
    then have "p \<in> peers c" by (simp only: peers_list_set)
    then obtain u where u: "u \<in> set units" "c \<in> set u" "p \<in> set u" "p \<noteq> c"
      unfolding peers_iff by auto
    have "distinct (concat (map w u))"
      using is_solved_unit_facts[OF assms u(1)] by simp
    then have "set (w c) \<inter> set (w p) = {}"
      using u(2,3,4) by (intro distinct_concat_disjoint[of w u]) auto
    then have "x \<notin> set (w p)" using x by simp
    then show "str_remove (w c) (w p) = w p"
      unfolding x str_remove_single by (auto simp: filter_id_conv)
  qed
qed

lemma single_only_choice_digit:
  assumes "\<And>c. c \<in> set u \<Longrightarrow> length (w c) = 1"
  shows "only_choice_digit u w d = w"
proof (cases "length (filter (\<lambda>b. d \<in> set (w b)) u) = 1")
  case True
  let ?c = "hd (filter (\<lambda>b. d \<in> set (w b)) u)"
  have "?c \<in> set (filter (\<lambda>b. d \<in> set (w b)) u)"
    using True by (metis length_one_hd list.set_intros(1))
  then have cu: "?c \<in> set u" and dc: "d \<in> set (w ?c)" by simp_all
  have "w ?c = [d]" by (rule single_string[OF assms[OF cu] dc])
  then have "w(?c := [d]) = w" by (simp add: fun_upd_idem_iff)
  then show ?thesis using True by (simp add: only_choice_digit_def)
next
  case False
  then show ?thesis by (simp add: only_choice_digit_def)
qed

lemma single_only_choice:
  assumes "\<And>c. c \<in> set boxes \<Longrightarrow> length (w c) = 1"
  shows "only_choice w = w"
  unfolding only_choice_def
proof (rule foldl_fixed_set)
  fix u
  assume "u \<in> set units"
  then have "length (w c) = 1" if "c \<in> set u" for c
    by (rule assms[OF units_in_boxes[OF _ that]])
  then have "only_choice_digit u w d = w" for d
    by (rule single_only_choice_digit)
  then show "only_choice_unit w u = w"
    unfolding only_choice_unit_def by (intro foldl_fixed)
qed

lemma twin_counts_none:
  assumes "\<And>c. c \<in> set u \<Longrightarrow> length (w c) \<noteq> 2"
  shows "twin_counts w u = []"
  unfolding twin_counts_def
  by (rule foldl_fixed_set) (simp add: assms)

lemma single_naked_twins:
  assumes "\<And>c. c \<in> set boxes \<Longrightarrow> length (w c) = 1"
  shows "naked_twins w = w"
  unfolding naked_twins_def
proof (rule foldl_fixed_set)
  fix u
  assume u: "u \<in> set units"
  have "twin_counts w u = []"
  proof (rule twin_counts_none)
    fix c
    assume "c \<in> set u"
    then have "length (w c) = 1" by (rule assms[OF units_in_boxes[OF u]])
    then show "length (w c) \<noteq> 2" by simp
  qed
  then show "naked_twins_unit w u = w" by (simp add: naked_twins_unit_def)
qed

lemma solved_single_fixed:
  assumes "is_solved w" and "\<And>c. c \<in> set boxes \<Longrightarrow> length (w c) = 1"
  shows "reduce_puzzle w = w"
proof -
  have e: "eliminate w = w" by (rule is_solved_eliminate[OF assms(1)])
  have o: "only_choice w = w" by (rule single_only_choice) (rule assms(2))
  have n: "naked_twins w = w" by (rule single_naked_twins) (rule assms(2))
  show ?thesis by (simp only: reduce_puzzle_def e o n)
qed

lemma g4_solved: "is_solved (grid_values g4)"
  by code_simp

lemma g4_single_all: "list_all (\<lambda>c. length (grid_values g4 c) = 1) boxes"
  by code_simp

lemma g4_single: "c \<in> set boxes \<Longrightarrow> length (grid_values g4 c) = 1"
  using g4_single_all by (simp add: list_all_iff)

lemma g4_fixed: "reduce_puzzle (grid_values g4) = grid_values g4"
  using g4_solved g4_single by (rule solved_single_fixed)

lemma search_g4: "search h (Suc n) (grid_values g4) = Some (Board (grid_values g4))"
proof -
  have "is_same h (grid_values g4) (reduce_puzzle (grid_values g4))"
    by (simp add: g4_fixed is_same_def)
  then have "reduce_loop h (grid_values g4) = grid_values g4"
    using reduce_loop_unfold[of h "grid_values g4"] by simp
  then show ?thesis unfolding search_Suc using g4_solved by simp
qed

theorem solution_validity_witness:
  "\<forall>h. search h (Suc 0) (grid_values g4) = Some (Board (grid_values g4)) \<and>
     length units = 29 \<and>
     list_all (\<lambda>u. sort (concat (map (grid_values g4) u)) = ''123456789'') units"
proof
  fix h
  have s: "search h (Suc 0) (grid_values g4) = Some (Board (grid_values g4))"
    by (rule search_g4)
  then have "search h (Suc 0) (grid_values g4) = Some (Board (grid_values g4))
       \<or> solve h (Suc 0) g4 = Some (Inr (Board (grid_values g4)))" ..
  from solution_validity[OF this] s
  show "search h (Suc 0) (grid_values g4) = Some (Board (grid_values g4)) \<and>
     length units = 29 \<and>
     list_all (\<lambda>u. sort (concat (map (grid_values g4) u)) = ''123456789'') units"
    by blast
qed

section \<open>A pass that changes the board and a hash that does not see it\<close>











section \<open>A box without candidates\<close>

lemma only_choice_fixed:
  assumes "\<And>u d. u \<in> set units \<Longrightarrow> length (filter (\<lambda>b. d \<in> set (w b)) u) \<noteq> 1"
  shows "only_choice w = w"
  unfolding only_choice_def
proof (rule foldl_fixed_set)
  fix u
  assume "u \<in> set units"
  then have "only_choice_digit u w d = w" for d
    using assms[of u d] by (simp add: only_choice_digit_def)
  then show "only_choice_unit w u = w"
    unfolding only_choice_unit_def by (intro foldl_fixed)
qed

lemma naked_twins_fixed:
  assumes "\<And>c. length (w c) \<noteq> 2"
  shows "naked_twins w = w"
  unfolding naked_twins_def
proof (rule foldl_fixed_set)
  fix u
  have "twin_counts w u = []" by (rule twin_counts_none) (rule assms)
  then show "naked_twins_unit w u = w" by (simp add: naked_twins_unit_def)
qed

lemma dead_A1_places_all:
  "list_all (\<lambda>u. list_all (\<lambda>d. length (filter (\<lambda>b. d \<in> set (dead_A1 b)) u) \<noteq> 1) ''123456789'')
     units"
  unfolding units_eq dead_A1_def by simp

lemma dead_A1_places:
  assumes "u \<in> set units"
  shows "length (filter (\<lambda>b. d \<in> set (dead_A1 b)) u) \<noteq> 1"
proof (cases "d \<in> set ''123456789''")
  case True
  then show ?thesis using dead_A1_places_all assms unfolding list_all_iff by blast
next
  case False
  then have "d \<notin> set (dead_A1 b)" for b by (simp add: dead_A1_def)
  then show ?thesis by simp
qed

lemma dead_A1_fixed: "reduce_puzzle dead_A1 = dead_A1"
proof -
  have "filter (\<lambda>b. length (dead_A1 b) = 1) boxes = []"
    by (simp add: dead_A1_def)
  then have e: "eliminate dead_A1 = dead_A1" by (simp add: eliminate_def)
  have o: "only_choice dead_A1 = dead_A1"
    by (rule only_choice_fixed) (rule dead_A1_places)
  have n: "naked_twins dead_A1 = dead_A1"
    by (rule naked_twins_fixed) (simp add: dead_A1_def)
  show ?thesis by (simp only: reduce_puzzle_def e o n)
qed

lemma reduce_loop_fixed: "reduce_puzzle v = v \<Longrightarrow> reduce_loop h v = v"
  using reduce_loop_unfold[of h v] by (simp add: is_same_def)

lemma dead_A1_total: "length (concat (dict_values dead_A1)) = 720"
  unfolding dict_values_def boxes_eq dead_A1_def by simp

lemma box_key_empty: "w c = [] \<Longrightarrow> box_key w c = 0"
  by (simp add: box_key_def)

lemma box_key_pos: "w c \<noteq> [] \<Longrightarrow> 0 < box_key w c"
  by (simp add: box_key_def)

lemma find_smallest_box_empty:
  assumes "c \<in> set boxes" and "w c = []"
  shows "w (find_smallest_box w) = []"
proof -
  have "box_key w (find_smallest_box w) \<le> box_key w c"
    using assms(1) by (rule find_smallest_box_le)
  then have "box_key w (find_smallest_box w) = 0"
    using box_key_empty[of w c] assms(2) by simp
  then show ?thesis by (simp add: box_key_def split: if_splits)
qed

text \<open>
  C10. On a board in which some box has the empty candidate string while the strings
  of the 81 boxes have more than 81 characters in all, \<open>is_searchable\<close> returns true
  and \<open>is_solved\<close> false; \<open>find_smallest_box\<close> returns a box with the empty string,
  whose key 0 is below the key of every box that has a candidate; the loop over the
  guesses runs no iteration, whatever the recursive call would do, and \<open>search\<close>,
  when its propagation loop has ended on this board, returns \<open>None\<close>, also when the
  recursion depth allowed is 1, that is without any recursive call.
\<close>

theorem empty_box_gives_none:
  assumes "c \<in> set boxes" and "w c = []" and "81 < length (concat (dict_values w))"
  shows "is_searchable w \<and> \<not> is_solved w \<and>
         find_smallest_box w \<in> set boxes \<and> w (find_smallest_box w) = [] \<and>
         list_all (\<lambda>c'. w c' = [] \<or> box_key w (find_smallest_box w) < box_key w c') boxes \<and>
         try_guesses rec w (find_smallest_box w) (w (find_smallest_box w)) = Some RNone \<and>
         (reduce_loop h v = w \<longrightarrow>
            search h (Suc 0) v = Some RNone \<and> search h (Suc n) v = Some RNone)"
proof -
  have se: "is_searchable w" using assms(3) by (simp add: is_searchable_def)
  have ns: "\<not> is_solved w"
    using is_solved_total_len[of w] assms(3) by (auto simp: total_len_def)
  have e: "w (find_smallest_box w) = []"
    using assms(1,2) by (rule find_smallest_box_empty)
  have k0: "box_key w (find_smallest_box w) = 0"
    using box_key_empty[of w "find_smallest_box w"] e by simp
  have "w c' = [] \<or> box_key w (find_smallest_box w) < box_key w c'" for c'
    using box_key_pos[of w c'] k0 by (cases "w c' = []") simp_all
  then have k: "list_all (\<lambda>c'. w c' = [] \<or> box_key w (find_smallest_box w) < box_key w c') boxes"
    unfolding list_all_iff by blast
  have t: "try_guesses rec w (find_smallest_box w) (w (find_smallest_box w)) = Some RNone"
    by (simp add: e)
  have s: "search h (Suc m) v = Some RNone" if "reduce_loop h v = w" for m
    unfolding search_Suc that using se ns e by simp
  from se ns e k t s find_smallest_box_in[of w] show ?thesis by blast
qed

theorem empty_box_gives_none_witness:
  "\<forall>h. ''A1'' \<in> set boxes \<and> dead_A1 ''A1'' = [] \<and> 81 < length (concat (dict_values dead_A1)) \<and>
     reduce_loop h dead_A1 = dead_A1 \<and> is_searchable dead_A1 \<and>
     find_smallest_box dead_A1 \<in> set boxes \<and> dead_A1 (find_smallest_box dead_A1) = [] \<and>
     search h (Suc 0) dead_A1 = Some RNone"
proof
  fix h
  have a: "''A1'' \<in> set boxes" by (simp add: boxes_eq)
  have b: "dead_A1 ''A1'' = []" by (simp add: dead_A1_def)
  have c: "81 < length (concat (dict_values dead_A1))" by (simp add: dead_A1_total)
  have d: "reduce_loop h dead_A1 = dead_A1" by (rule reduce_loop_fixed[OF dead_A1_fixed])
  from empty_box_gives_none[OF a b c, of _ h dead_A1 0] a b c d
  show "''A1'' \<in> set boxes \<and> dead_A1 ''A1'' = [] \<and> 81 < length (concat (dict_values dead_A1)) \<and>
     reduce_loop h dead_A1 = dead_A1 \<and> is_searchable dead_A1 \<and>
     find_smallest_box dead_A1 \<in> set boxes \<and> dead_A1 (find_smallest_box dead_A1) = [] \<and>
     search h (Suc 0) dead_A1 = Some RNone"
    by blast
qed

end
